theory Spec2Isabelle
  imports Main
begin

section \<open>Data model\<close>

text \<open>
  A revision token of the document store has the shape \<^verbatim>\<open><generation>-<hash>\<close>: the
  generation counts the writes of the document, the hash is chosen by the store. The
  handlers only compare tokens for equality.
\<close>

type_synonym rev = "nat \<times> string"

text \<open>
  A stored document: \<^verbatim>\<open>_id\<close>, \<^verbatim>\<open>_rev\<close> and the \<^verbatim>\<open>data\<close> object. Identifiers are
  opaque tokens with the collation order of the store (\<^verbatim>\<open>allDocs\<close> lists by it).
\<close>

record ('i, 'd) doc =
  doc_id :: 'i
  doc_rev :: rev
  data :: 'd

text \<open>One changelog entry, as both handlers build it.\<close>

record entry =
  message :: string
  user :: string
  timestamp :: string

text \<open>
  The \<^verbatim>\<open>data\<close> object of a model document. The handlers never look inside
  \<^verbatim>\<open>entities\<close>, so its type is a parameter; the request schema leaves it optional.
\<close>

record 'e model_data =
  entities :: "'e option"
  changelog :: "entry list"
  name :: string

text \<open>
  The error objects that are thrown: \<^verbatim>\<open>status\<close>, \<^verbatim>\<open>message\<close> and, on the update
  handler's own conflict, \<^verbatim>\<open>_rev\<close>. A status of 0 stands for an error without one.
\<close>

record err =
  status :: nat
  err_message :: string
  err_rev :: "rev option"

section \<open>The document store\<close>

text \<open>
  Modelled from the spec: the document store client (section 4.1, Document Store
  Adapter) is an external library, absent from the sources. A collection is the list of
  its live documents in iteration order, which is the order of their identifiers.
  \<^verbatim>\<open>post\<close> stores a new document under a generated identifier at generation 1;
  \<^verbatim>\<open>put\<close> and \<^verbatim>\<open>remove\<close> fail with a conflict unless the supplied revision is the
  stored one; every successful \<^verbatim>\<open>put\<close> assigns the next generation. The generated
  identifier and hash are inputs of the operations.
\<close>

type_synonym ('i, 'd) store = "('i, 'd) doc list"

definition conflict :: err where
  "conflict = \<lparr>status = 409, err_message = ''Document update conflict'', err_rev = None\<rparr>"

definition missing :: err where
  "missing = \<lparr>status = 404, err_message = ''missing'', err_rev = None\<rparr>"

definition allDocs :: "('i, 'd) store \<Rightarrow> ('i, 'd) doc list" where
  "allDocs s = s"

definition post :: "'i::linorder \<Rightarrow> string \<Rightarrow> 'd \<Rightarrow> ('i, 'd) store \<Rightarrow> err + ('i, 'd) store" where
  "post new_id h d s =
     (if new_id \<in> set (map doc_id s) then Inl conflict
      else Inr (insort_key doc_id \<lparr>doc_id = new_id, doc_rev = (1, h), data = d\<rparr> s))"

definition put :: "string \<Rightarrow> ('i, 'd) doc \<Rightarrow> ('i, 'd) store \<Rightarrow> err + ('i, 'd) store" where
  "put h d s =
     (case find (\<lambda>x. doc_id x = doc_id d) s of
        None \<Rightarrow> Inl conflict
      | Some cur \<Rightarrow>
          if doc_rev cur = doc_rev d
          then Inr (map (\<lambda>x. if doc_id x = doc_id d
                              then d\<lparr>doc_rev := (Suc (fst (doc_rev d)), h)\<rparr> else x) s)
          else Inl conflict)"

definition remove :: "'i \<Rightarrow> rev \<Rightarrow> ('i, 'd) store \<Rightarrow> err + ('i, 'd) store" where
  "remove i r s =
     (case find (\<lambda>x. doc_id x = i) s of
        None \<Rightarrow> Inl missing
      | Some cur \<Rightarrow>
          if doc_rev cur = r then Inr (filter (\<lambda>x. doc_id x \<noteq> i) s) else Inl conflict)"

text \<open>The invariant of a collection: identifiers are distinct and listed in order.\<close>

definition wf_store :: "('i::linorder, 'd) store \<Rightarrow> bool" where
  "wf_store s \<longleftrightarrow> sorted (map doc_id s) \<and> distinct (map doc_id s)"

section \<open>Requests and replies\<close>

text \<open>
  The validated request: \<^verbatim>\<open>params.name\<close>, the payload (\<^verbatim>\<open>_rev\<close> is present on
  updates only), the authenticated user's name and the \<^verbatim>\<open>buildUrl\<close> helper.
\<close>

record 'e payload =
  p_commitMessage :: string
  p_entities :: "'e option"
  p_name :: string
  p_rev :: "rev option"

record 'e request =
  params_name :: string
  payload :: "'e payload"
  auth_user :: string
  buildUrl :: "string \<Rightarrow> string"

text \<open>
  What a handler reads from outside the request and the store: the clock, and the
  identifier and hash the store generates for the write.
\<close>

record 'i env =
  now :: string
  fresh_id :: 'i
  fresh_hash :: string

text \<open>
  A value of a response object; \<^verbatim>\<open>JEntities None\<close> is a key holding
  \<^verbatim>\<open>undefined\<close>.
\<close>

datatype 'e jval = JString string | JRev rev | JEntities "'e option"

text \<open>
  The argument of \<^verbatim>\<open>reply\<close>: an object (the keys in the order the handler writes
  them) with its status code, an empty body with its code, or a Boom error with its
  status, message and the \<^verbatim>\<open>_rev\<close> added to its payload.
\<close>

datatype 'e reply =
    Reply nat "(string \<times> 'e jval) list"
  | ReplyEmpty nat
  | ReplyBoom nat string "rev option"

text \<open>\<^verbatim>\<open>Boom.create(e.status || 500, e.message, e)\<close>: the data is not part of the payload.\<close>

definition boom :: "err \<Rightarrow> 'e reply" where
  "boom e = ReplyBoom (if status e = 0 then 500 else status e) (err_message e) None"

text \<open>The catch block of the update handler, which copies a truthy \<^verbatim>\<open>_rev\<close>.\<close>

definition boom_rev :: "err \<Rightarrow> 'e reply" where
  "boom_rev e = ReplyBoom (if status e = 0 then 500 else status e) (err_message e) (err_rev e)"

section \<open>The handlers\<close>

definition not_found :: err where
  "not_found = \<lparr>status = 404, err_message = ''Not Found'', err_rev = None\<rparr>"

definition getModel :: "string \<Rightarrow> ('i, 'e model_data) store \<Rightarrow> err + ('i, 'e model_data) doc" where
  "getModel n s =
     (let modelArray = filter (\<lambda>row. name (data row) = n) (allDocs s)
      in case modelArray of
           d # _ \<Rightarrow> Inr d
         | [] \<Rightarrow> Inl not_found)"

text \<open>
  When \<^verbatim>\<open>getModel\<close> resolves, neither \<^verbatim>\<open>catch\<close> of the create handler runs and
  \<^verbatim>\<open>reply\<close> is never called: the result carries no reply.
\<close>

definition postModelsHandler ::
  "'i::linorder env \<Rightarrow> 'e request \<Rightarrow> ('i, 'e model_data) store
     \<Rightarrow> ('i, 'e model_data) store \<times> 'e reply option" where
  "postModelsHandler env request s =
     (case getModel (p_name (payload request)) s of
        Inr _ \<Rightarrow> (s, None)
      | Inl error \<Rightarrow>
          if status error = 404 then
            (case post (fresh_id env) (fresh_hash env)
                    \<lparr>entities = p_entities (payload request),
                     changelog = [\<lparr>message = p_commitMessage (payload request),
                                   user = auth_user request,
                                   timestamp = now env\<rparr>],
                     name = p_name (payload request)\<rparr> s of
               Inl e \<Rightarrow> (s, Some (boom e))
             | Inr s' \<Rightarrow>
                 (case getModel (p_name (payload request)) s' of
                    Inl e \<Rightarrow> (s', Some (boom e))
                  | Inr newModel \<Rightarrow>
                      (s', Some (Reply 201
                         [(''entities'', JEntities (entities (data newModel))),
                          (''_rev'', JRev (doc_rev newModel)),
                          (''name'', JString (name (data newModel))),
                          (''url'', JString (buildUrl request (''/models/'' @ name (data newModel)))),
                          (''changelog_url'', JString (buildUrl request
                             (''/models/'' @ name (data newModel) @ ''/changelog'')))]))))
          else (s, Some (boom error)))"

definition getModelHandler ::
  "'e request \<Rightarrow> ('i, 'e model_data) store \<Rightarrow> ('i, 'e model_data) store \<times> 'e reply option" where
  "getModelHandler request s =
     (case getModel (params_name request) s of
        Inr model \<Rightarrow>
          (s, Some (Reply 200
             [(''entities'', JEntities (entities (data model))),
              (''name'', JString (name (data model))),
              (''_rev'', JRev (doc_rev model)),
              (''url'', JString (buildUrl request (''/models/'' @ name (data model)))),
              (''changelog_url'', JString (buildUrl request
                 (''/models/'' @ name (data model) @ ''/changelog'')))]))
      | Inl error \<Rightarrow> (s, Some (boom error)))"

definition putModelHandler ::
  "'i env \<Rightarrow> 'e request \<Rightarrow> ('i, 'e model_data) store
     \<Rightarrow> ('i, 'e model_data) store \<times> 'e reply option" where
  "putModelHandler env request s =
     (case getModel (params_name request) s of
        Inl error \<Rightarrow> (s, Some (boom_rev error))
      | Inr model \<Rightarrow>
          if Some (doc_rev model) = p_rev (payload request) then
            (case put (fresh_hash env)
                    (model\<lparr>data := \<lparr>entities = p_entities (payload request),
                                     changelog = \<lparr>message = p_commitMessage (payload request),
                                                  user = auth_user request,
                                                  timestamp = now env\<rparr> # changelog (data model),
                                     name = p_name (payload request)\<rparr>\<rparr>) s of
               Inl e \<Rightarrow> (s, Some (boom_rev e))
             | Inr s' \<Rightarrow>
                 (case getModel (p_name (payload request)) s' of
                    Inl e \<Rightarrow> (s', Some (boom_rev e))
                  | Inr model' \<Rightarrow>
                      (s', Some (Reply 200
                         [(''name'', JString (name (data model'))),
                          (''_rev'', JRev (doc_rev model')),
                          (''entities'', JEntities (entities (data model'))),
                          (''url'', JString (buildUrl request (''/models/'' @ name (data model')))),
                          (''changelog_url'', JString (buildUrl request
                             (''/models/'' @ name (data model') @ ''/changelog'')))]))))
          else (s, Some (boom_rev \<lparr>status = 409,
                                   err_message = ''Conflict, bad revision number'',
                                   err_rev = Some (doc_rev model)\<rparr>)))"

definition deleteModelsHandler ::
  "'e request \<Rightarrow> ('i, 'e model_data) store \<Rightarrow> ('i, 'e model_data) store \<times> 'e reply option" where
  "deleteModelsHandler request s =
     (case getModel (params_name request) s of
        Inl error \<Rightarrow> (s, Some (boom error))
      | Inr model \<Rightarrow>
          (case remove (doc_id model) (doc_rev model) s of
             Inl e \<Rightarrow> (s, Some (boom e))
           | Inr s' \<Rightarrow> (s', Some (ReplyEmpty 204))))"

section \<open>Twiglets and the clone engine\<close>

text \<open>
  Modelled from the spec: the twiglet repository and the clone engine are not among the
  sources (only their end-to-end test is). A twiglet's data, after section 3: the graph
  (nodes and links, whose contents are parameters), the name of its model, its name and
  description, and the changelog.
\<close>

record ('n, 'l) twiglet_data =
  nodes :: "'n list"
  links :: "'l list"
  model :: string
  tw_name :: string
  description :: string
  tw_changelog :: "entry list"

text \<open>
  Modelled from the spec: \<^verbatim>\<open>findByName(name)\<close> of section 4.4, which fails with NotFound
  if no live document has that name; resolution is by the scan of the collection.
\<close>

definition findByName ::
  "string \<Rightarrow> ('i, ('n, 'l) twiglet_data) store \<Rightarrow> err + ('i, ('n, 'l) twiglet_data) doc" where
  "findByName n s =
     (case filter (\<lambda>row. tw_name (data row) = n) (allDocs s) of
        d # _ \<Rightarrow> Inr d
      | [] \<Rightarrow> Inl not_found)"

text \<open>
  Modelled from the spec: the Conflict failure of section 7 for a duplicate name.
\<close>

definition name_conflict :: err where
  "name_conflict = \<lparr>status = 409, err_message = ''Conflict'', err_rev = None\<rparr>"

text \<open>
  Modelled from the spec: \<^verbatim>\<open>appendEntry(document, message, actor)\<close> of section 4.3, which
  puts the entry in front of the changelog, with the time of the call.
\<close>

definition appendEntry ::
  "'i env \<Rightarrow> ('n, 'l) twiglet_data \<Rightarrow> string \<Rightarrow> string \<Rightarrow> ('n, 'l) twiglet_data" where
  "appendEntry env d commitMessage actor =
     d\<lparr>tw_changelog := \<lparr>message = commitMessage, user = actor, timestamp = now env\<rparr>
                          # tw_changelog d\<rparr>"

text \<open>
  Modelled from the spec: \<^verbatim>\<open>create(payload, commitMessage, actor)\<close> of section 4.4. It
  fails with Conflict if a document of that name exists, otherwise it persists a new
  document with a single changelog entry and returns it as read back.
\<close>

definition create ::
  "'i::linorder env \<Rightarrow> ('n, 'l) twiglet_data \<Rightarrow> string \<Rightarrow> string
     \<Rightarrow> ('i, ('n, 'l) twiglet_data) store
     \<Rightarrow> err + (('i, ('n, 'l) twiglet_data) store \<times> ('i, ('n, 'l) twiglet_data) doc)" where
  "create env p commitMessage actor s =
     (case findByName (tw_name p) s of
        Inr _ \<Rightarrow> Inl name_conflict
      | Inl _ \<Rightarrow>
          (case post (fresh_id env) (fresh_hash env)
                  (appendEntry env (p\<lparr>tw_changelog := []\<rparr>) commitMessage actor) s of
             Inl e \<Rightarrow> Inl e
           | Inr s' \<Rightarrow>
               (case findByName (tw_name p) s' of
                  Inl e \<Rightarrow> Inl e
                | Inr d \<Rightarrow> Inr (s', d))))"

text \<open>
  Modelled from the spec: \<^verbatim>\<open>guardedUpdate(name, supplied_revision, mutateFn)\<close> of section
  4.2, steps 1 to 5: resolve by name, compare the revisions, fail with Conflict carrying
  the stored revision on a mismatch, otherwise apply \<^verbatim>\<open>mutateFn\<close>, write, and return the
  document as read back.
\<close>

definition guardedUpdate ::
  "'i env \<Rightarrow> string \<Rightarrow> rev \<Rightarrow> (('n, 'l) twiglet_data \<Rightarrow> ('n, 'l) twiglet_data)
     \<Rightarrow> ('i, ('n, 'l) twiglet_data) store
     \<Rightarrow> err + (('i, ('n, 'l) twiglet_data) store \<times> ('i, ('n, 'l) twiglet_data) doc)" where
  "guardedUpdate env n supplied_revision mutateFn s =
     (case findByName n s of
        Inl e \<Rightarrow> Inl e
      | Inr d \<Rightarrow>
          if supplied_revision \<noteq> doc_rev d
          then Inl \<lparr>status = 409, err_message = ''Conflict'', err_rev = Some (doc_rev d)\<rparr>
          else
            (case put (fresh_hash env) (d\<lparr>data := mutateFn (data d)\<rparr>) s of
               Inl e \<Rightarrow> Inl e
             | Inr s' \<Rightarrow>
                 (case findByName (tw_name (mutateFn (data d))) s' of
                    Inl e \<Rightarrow> Inl e
                  | Inr d' \<Rightarrow> Inr (s', d'))))"

text \<open>
  Modelled from the spec: \<^verbatim>\<open>cloneFrom(sourceName, newName, newDescription, commitMessage,
  actor)\<close> of section 4.5: resolve the source by name, build the payload with the nodes,
  links and model of the source and the supplied name and description, and create it.
\<close>

definition cloneFrom ::
  "'i::linorder env \<Rightarrow> string \<Rightarrow> string \<Rightarrow> string \<Rightarrow> string \<Rightarrow> string
     \<Rightarrow> ('i, ('n, 'l) twiglet_data) store
     \<Rightarrow> err + (('i, ('n, 'l) twiglet_data) store \<times> ('i, ('n, 'l) twiglet_data) doc)" where
  "cloneFrom env sourceName newName newDescription commitMessage actor s =
     (case findByName sourceName s of
        Inl e \<Rightarrow> Inl e
      | Inr source \<Rightarrow>
          create env \<lparr>nodes = nodes (data source), links = links (data source),
                      model = model (data source), tw_name = newName,
                      description = newDescription, tw_changelog = []\<rparr>
            commitMessage actor s)"

section \<open>Notions used in the statements\<close>


text \<open>The changelog entry that a handler builds from its request and the clock.\<close>

definition entry_of :: "'i env \<Rightarrow> 'e request \<Rightarrow> entry" where
  "entry_of env request = \<lparr>message = p_commitMessage (payload request),
                            user = auth_user request, timestamp = now env\<rparr>"

text \<open>
  The document that a successful update stores in place of \<open>d\<close>: same identifier,
  next generation, the supplied entities and name, the new entry in front of the
  changelog.
\<close>

definition updated :: "'i env \<Rightarrow> 'e request \<Rightarrow> ('i, 'e model_data) doc \<Rightarrow> ('i, 'e model_data) doc" where
  "updated env request d =
     \<lparr>doc_id = doc_id d, doc_rev = (Suc (fst (doc_rev d)), fresh_hash env),
      data = \<lparr>entities = p_entities (payload request),
              changelog = entry_of env request # changelog (data d),
              name = p_name (payload request)\<rparr>\<rparr>"



section \<open>Example data\<close>

text \<open>
  Concrete requests, inputs and documents at which the theorems below are instantiated.
  Identifiers are natural numbers here and the entities payload is a string. The documents
  are the ones the handlers store: \<open>docA\<close> and \<open>docB\<close> by two create requests on the
  empty collection, \<open>docC\<close> by an update of \<open>docB\<close> that renames it.
\<close>

definition req :: "string \<Rightarrow> string \<Rightarrow> string option \<Rightarrow> rev option \<Rightarrow> string request" where
  "req pn n e r = \<lparr>params_name = pn,
                   payload = \<lparr>p_commitMessage = ''msg'', p_entities = e, p_name = n, p_rev = r\<rparr>,
                   auth_user = ''carol'',
                   buildUrl = (\<lambda>path. ''http://host'' @ path)\<rparr>"

definition env1 :: "nat env" where
  "env1 = \<lparr>now = ''t1'', fresh_id = 1, fresh_hash = ''h1''\<rparr>"

definition env2 :: "nat env" where
  "env2 = \<lparr>now = ''t2'', fresh_id = 2, fresh_hash = ''h2''\<rparr>"

definition env3 :: "nat env" where
  "env3 = \<lparr>now = ''t3'', fresh_id = 3, fresh_hash = ''h3''\<rparr>"

definition docA :: "(nat, string model_data) doc" where
  "docA = \<lparr>doc_id = 1, doc_rev = (1, ''h1''),
            data = \<lparr>entities = Some ''e1'',
                    changelog = [\<lparr>message = ''msg'', user = ''carol'', timestamp = ''t1''\<rparr>],
                    name = ''dup''\<rparr>\<rparr>"

definition docB :: "(nat, string model_data) doc" where
  "docB = \<lparr>doc_id = 2, doc_rev = (1, ''h2''),
            data = \<lparr>entities = Some ''e2'',
                    changelog = [\<lparr>message = ''msg'', user = ''carol'', timestamp = ''t2''\<rparr>],
                    name = ''other''\<rparr>\<rparr>"

definition docC :: "(nat, string model_data) doc" where
  "docC = \<lparr>doc_id = 2, doc_rev = (2, ''h3''),
            data = \<lparr>entities = None,
                    changelog = [\<lparr>message = ''msg'', user = ''carol'', timestamp = ''t3''\<rparr>,
                                 \<lparr>message = ''msg'', user = ''carol'', timestamp = ''t2''\<rparr>],
                    name = ''dup''\<rparr>\<rparr>"

text \<open>
  Twiglets as in the end-to-end test: \<open>twA\<close> is the base twiglet after its update,
  \<open>twB\<close> its clone, \<open>twA2\<close> the base twiglet after a later change of its graph.
\<close>

definition twA :: "(nat, (string, string) twiglet_data) doc" where
  "twA = \<lparr>doc_id = 1, doc_rev = (2, ''h1''),
           data = \<lparr>nodes = [''node''], links = [''link''], model = ''m'', tw_name = ''base'',
                   description = ''foo bar baz'',
                   tw_changelog = [\<lparr>message = ''upd'', user = ''ann'', timestamp = ''t1''\<rparr>,
                                   \<lparr>message = ''new'', user = ''ann'', timestamp = ''t0''\<rparr>]\<rparr>\<rparr>"

definition twB :: "(nat, (string, string) twiglet_data) doc" where
  "twB = \<lparr>doc_id = 2, doc_rev = (1, ''h2''),
           data = \<lparr>nodes = [''node''], links = [''link''], model = ''m'', tw_name = ''clone'',
                   description = ''This was cloned'',
                   tw_changelog = [\<lparr>message = ''cloned'', user = ''bob'', timestamp = ''t2''\<rparr>]\<rparr>\<rparr>"

definition twA2 :: "(nat, (string, string) twiglet_data) doc" where
  "twA2 = \<lparr>doc_id = 1, doc_rev = (3, ''h3''),
           data = \<lparr>nodes = [''changed''], links = [], model = ''m'', tw_name = ''base'',
                   description = ''foo bar baz'',
                   tw_changelog = [\<lparr>message = ''upd'', user = ''ann'', timestamp = ''t1''\<rparr>,
                                   \<lparr>message = ''new'', user = ''ann'', timestamp = ''t0''\<rparr>]\<rparr>\<rparr>"

section \<open>Lookup by name\<close>

lemma getModel_Nil: "getModel n [] = Inl not_found"
  by (simp add: getModel_def allDocs_def)

lemma getModel_Cons:
  "getModel n (x # s) = (if name (data x) = n then Inr x else getModel n s)"
  by (simp add: getModel_def allDocs_def)

lemma getModel_absent:
  "\<forall>d \<in> set s. name (data d) \<noteq> n \<Longrightarrow> getModel n s = Inl not_found"
  by (induction s) (auto simp: getModel_Nil getModel_Cons)


lemma getModel_append:
  "\<forall>x \<in> set pre. name (data x) \<noteq> n \<Longrightarrow> getModel n (pre @ s) = getModel n s"
  by (induction pre) (auto simp: getModel_Cons)

lemma getModel_Inr_D:
  "getModel n s = Inr d \<Longrightarrow>
     \<exists>pre suf. s = pre @ d # suf \<and> name (data d) = n \<and> (\<forall>x \<in> set pre. name (data x) \<noteq> n)"
proof (induction s)
  case Nil
  then show ?case by (simp add: getModel_Nil)
next
  case (Cons x s)
  show ?case
  proof (cases "name (data x) = n")
    case True
    with Cons.prems have "d = x" by (simp add: getModel_Cons)
    with True have "x # s = [] @ d # s \<and> name (data d) = n \<and> (\<forall>x \<in> set []. name (data x) \<noteq> n)"
      by simp
    then show ?thesis by blast
  next
    case False
    with Cons.prems have "getModel n s = Inr d" by (simp add: getModel_Cons)
    from Cons.IH [OF this] obtain pre suf where
      "s = pre @ d # suf" "name (data d) = n" "\<forall>x \<in> set pre. name (data x) \<noteq> n" by blast
    with False have "x # s = (x # pre) @ d # suf \<and> name (data d) = n
         \<and> (\<forall>y \<in> set (x # pre). name (data y) \<noteq> n)" by simp
    then show ?thesis by blast
  qed
qed

lemma getModel_first:
  "name (data d) = n \<Longrightarrow> \<forall>x \<in> set pre. name (data x) \<noteq> n \<Longrightarrow> getModel n (pre @ d # suf) = Inr d"
  by (simp add: getModel_append getModel_Cons)

lemma getModel_member:
  "d \<in> set s \<Longrightarrow> \<exists>d'. getModel (name (data d)) s = Inr d'"
  by (induction s) (auto simp: getModel_Cons)

lemma getModel_Inr_set:
  "getModel n s = Inr d \<Longrightarrow> d \<in> set s \<and> name (data d) = n"
  by (induction s) (auto simp: getModel_Nil getModel_Cons split: if_splits)

text \<open>
  C10. When two or more live documents carry the name, \<^verbatim>\<open>getModel\<close> does not fail: it
  returns the first of them in the iteration order of \<^verbatim>\<open>allDocs\<close>, that is the
  document that no other document of that name precedes.
\<close>

theorem getModel_first_of_duplicates:
  "2 \<le> length (filter (\<lambda>row. name (data row) = n) (allDocs s)) \<Longrightarrow>
     \<exists>pre d suf. allDocs s = pre @ d # suf \<and> (\<forall>x \<in> set pre. name (data x) \<noteq> n)
        \<and> name (data d) = n \<and> getModel n s = Inr d"
proof -
  assume "2 \<le> length (filter (\<lambda>row. name (data row) = n) (allDocs s))"
  then have "filter (\<lambda>row. name (data row) = n) s \<noteq> []"
    by (auto simp: allDocs_def)
  then obtain x where "x \<in> set s" "name (data x) = n"
    by (auto simp: filter_empty_conv)
  from getModel_member [OF this(1)] this(2) obtain d where d: "getModel n s = Inr d" by auto
  from getModel_Inr_D [OF d] d show ?thesis by (auto simp: allDocs_def)
qed

theorem getModel_first_of_duplicates_witness:
  "2 \<le> length (filter (\<lambda>row. name (data row) = ''dup'') (allDocs [docA, docC]))
   \<and> getModel ''dup'' [docA, docC] = Inr docA"
  using getModel_first_of_duplicates [of "''dup''" "[docA, docC]"]
  by (simp add: getModel_Cons allDocs_def docA_def docC_def)

section \<open>The revision guard of the update handler\<close>

text \<open>
  C2. When the update request resolves to a stored document whose revision differs from
  the supplied one, the handler replies with status 409, the reply's payload carries the
  stored revision, and the store is returned as it was.
\<close>

theorem putModelHandler_stale:
  assumes "getModel (params_name request) s = Inr d"
    and "p_rev (payload request) = Some r'" and "r' \<noteq> doc_rev d"
  shows "putModelHandler env request s =
           (s, Some (ReplyBoom 409 ''Conflict, bad revision number'' (Some (doc_rev d))))"
  using assms by (auto simp: putModelHandler_def boom_rev_def)

theorem putModelHandler_stale_witness:
  "getModel ''dup'' [docA, docB] = Inr docA \<and> (0, ''h0'') \<noteq> doc_rev docA
   \<and> putModelHandler env3 (req ''dup'' ''dup'' None (Some (0, ''h0''))) [docA, docB] =
       ([docA, docB], Some (ReplyBoom 409 ''Conflict, bad revision number'' (Some (1, ''h1''))))"
  using putModelHandler_stale [of "req ''dup'' ''dup'' None (Some (0, ''h0''))" "[docA, docB]" docA
      "(0, ''h0'')" env3]
  by (simp add: getModel_Cons docA_def docB_def req_def)

section \<open>The store operations\<close>

lemma set_post:
  "post i h d s = Inr s' \<Longrightarrow> set s' = insert \<lparr>doc_id = i, doc_rev = (1, h), data = d\<rparr> (set s)"
  by (auto simp: post_def set_insort_key split: if_splits)



lemma put_ids: "put h d s = Inr s' \<Longrightarrow> map doc_id s' = map doc_id s"
  by (auto simp: put_def split: option.splits if_splits)

lemma wf_store_put: "wf_store s \<Longrightarrow> put h d s = Inr s' \<Longrightarrow> wf_store s'"
  by (simp add: wf_store_def put_ids)

lemma wf_store_remove: "wf_store s \<Longrightarrow> remove i r s = Inr s' \<Longrightarrow> wf_store s'"
  by (auto simp: wf_store_def remove_def sorted_filter distinct_map_filter
        split: option.splits if_splits)

text \<open>A document just read from the store can be written back and removed.\<close>

lemma find_distinct:
  "distinct (map doc_id s) \<Longrightarrow> d \<in> set s \<Longrightarrow> find (\<lambda>x. doc_id x = doc_id d) s = Some d"
  by (induction s) (auto simp: rev_image_eqI)

lemma put_current:
  assumes "distinct (map doc_id s)" and "d \<in> set s"
  shows "put h (d\<lparr>data := v\<rparr>) s =
           Inr (map (\<lambda>x. if doc_id x = doc_id d
                          then d\<lparr>doc_rev := (Suc (fst (doc_rev d)), h), data := v\<rparr> else x) s)"
  using find_distinct [OF assms] by (simp add: put_def)

lemma remove_current:
  assumes "distinct (map doc_id s)" and "d \<in> set s"
  shows "remove (doc_id d) (doc_rev d) s = Inr (filter (\<lambda>x. doc_id x \<noteq> doc_id d) s)"
  using find_distinct [OF assms] by (simp add: remove_def)

section \<open>The example collections are reachable\<close>

lemma example_create_A: "postModelsHandler env1 (req [] ''dup'' (Some ''e1'') None) [] =
   ([docA], Some (Reply 201 [(''entities'', JEntities (Some ''e1'')), (''_rev'', JRev (1, ''h1'')),
      (''name'', JString ''dup''), (''url'', JString ''http://host/models/dup''),
      (''changelog_url'', JString ''http://host/models/dup/changelog'')]))"
  by (simp add: postModelsHandler_def getModel_Nil getModel_Cons not_found_def post_def
        req_def env1_def docA_def)

lemma example_create_B: "fst (postModelsHandler env2 (req [] ''other'' (Some ''e2'') None) [docA]) = [docA, docB]"
  by (simp add: postModelsHandler_def getModel_Nil getModel_Cons not_found_def post_def
        req_def env2_def docA_def docB_def)

lemma example_rename_B: "fst (putModelHandler env3 (req ''other'' ''dup'' None (Some (1, ''h2''))) [docA, docB])
    = [docA, docC]"
  by (simp add: putModelHandler_def getModel_Nil getModel_Cons put_def
        req_def env3_def docA_def docB_def docC_def)

section \<open>Creation\<close>




text \<open>
  Whenever the name of a create request resolves, the handler returns the collection as
  it was and no reply.
\<close>

lemma postModelsHandler_existing:
  "getModel (p_name (payload request)) s = Inr d \<Longrightarrow> postModelsHandler env request s = (s, None)"
  by (simp add: postModelsHandler_def)

text \<open>
  C1. With a document named \<open>dup\<close> stored, a create request for \<open>dup\<close> writes nothing,
  but the handler ends without calling \<^verbatim>\<open>reply\<close>: no 409 is sent.
\<close>

theorem postModelsHandler_duplicate_no_reply:
  "getModel ''dup'' [docA, docB] = Inr docA
   \<and> postModelsHandler env3 (req [] ''dup'' (Some ''e3'') None) [docA, docB] = ([docA, docB], None)"
  by (simp add: postModelsHandler_def getModel_Cons docA_def docB_def req_def)

section \<open>Lookup and deletion of absent names\<close>

lemma getModelHandler_absent:
  "\<forall>d \<in> set s. name (data d) \<noteq> params_name request \<Longrightarrow>
     getModelHandler request s = (s, Some (ReplyBoom 404 ''Not Found'' None))"
  by (simp add: getModelHandler_def getModel_absent boom_def not_found_def)

lemma deleteModelsHandler_absent:
  "\<forall>d \<in> set s. name (data d) \<noteq> params_name request \<Longrightarrow>
     deleteModelsHandler request s = (s, Some (ReplyBoom 404 ''Not Found'' None))"
  by (simp add: deleteModelsHandler_def getModel_absent boom_def not_found_def)

lemma deleteModelsHandler_present:
  assumes "wf_store s" and "getModel (params_name request) s = Inr d"
  shows "deleteModelsHandler request s =
           (filter (\<lambda>x. doc_id x \<noteq> doc_id d) s, Some (ReplyEmpty 204))"
proof -
  from assms(1) have "distinct (map doc_id s)" by (simp add: wf_store_def)
  moreover from getModel_Inr_set [OF assms(2)] have "d \<in> set s" by simp
  ultimately have "remove (doc_id d) (doc_rev d) s = Inr (filter (\<lambda>x. doc_id x \<noteq> doc_id d) s)"
    by (rule remove_current)
  with assms(2) show ?thesis by (simp add: deleteModelsHandler_def)
qed

text \<open>
  C6, amended. For a name that no live document carries, the get handler and the delete
  handler both reply 404 and leave the collection as it was. For a name that exactly one
  live document carries, the delete handler replies 204, and a get or a delete of that
  name afterwards replies 404.
\<close>

theorem not_found_when_absent_and_after_delete:
  fixes s :: "('i::linorder, 'e model_data) store"
  assumes "params_name request = n"
  shows "((\<forall>d \<in> set s. name (data d) \<noteq> n) \<longrightarrow>
            getModelHandler request s = (s, Some (ReplyBoom 404 ''Not Found'' None))
          \<and> deleteModelsHandler request s = (s, Some (ReplyBoom 404 ''Not Found'' None)))
     \<and> (wf_store s \<and> length (filter (\<lambda>row. name (data row) = n) (allDocs s)) = 1 \<longrightarrow>
          (\<exists>s'. deleteModelsHandler request s = (s', Some (ReplyEmpty 204))
             \<and> getModelHandler request s' = (s', Some (ReplyBoom 404 ''Not Found'' None))
             \<and> deleteModelsHandler request s' = (s', Some (ReplyBoom 404 ''Not Found'' None))))"
proof (intro conjI impI)
  assume "\<forall>d \<in> set s. name (data d) \<noteq> n"
  with assms show "getModelHandler request s = (s, Some (ReplyBoom 404 ''Not Found'' None))"
    by (simp add: getModelHandler_absent)
next
  assume "\<forall>d \<in> set s. name (data d) \<noteq> n"
  with assms show "deleteModelsHandler request s = (s, Some (ReplyBoom 404 ''Not Found'' None))"
    by (simp add: deleteModelsHandler_absent)
next
  assume a: "wf_store s \<and> length (filter (\<lambda>row. name (data row) = n) (allDocs s)) = 1"
  then obtain d where f: "filter (\<lambda>row. name (data row) = n) s = [d]"
    by (auto simp: allDocs_def length_Suc_conv)
  then have g: "getModel (params_name request) s = Inr d"
    using assms by (simp add: getModel_def allDocs_def)
  let ?s' = "filter (\<lambda>x. doc_id x \<noteq> doc_id d) s"
  from a g have del: "deleteModelsHandler request s = (?s', Some (ReplyEmpty 204))"
    by (simp add: deleteModelsHandler_present)
  have "\<forall>x \<in> set ?s'. name (data x) \<noteq> params_name request"
  proof
    fix x assume x: "x \<in> set ?s'"
    show "name (data x) \<noteq> params_name request"
    proof
      assume "name (data x) = params_name request"
      with x assms have "x \<in> set (filter (\<lambda>row. name (data row) = n) s)" by simp
      with f have "x = d" by simp
      with x show False by simp
    qed
  qed
  then have "getModelHandler request ?s' = (?s', Some (ReplyBoom 404 ''Not Found'' None))"
    and "deleteModelsHandler request ?s' = (?s', Some (ReplyBoom 404 ''Not Found'' None))"
    by (simp_all add: getModelHandler_absent deleteModelsHandler_absent)
  with del show "\<exists>s'. deleteModelsHandler request s = (s', Some (ReplyEmpty 204))
             \<and> getModelHandler request s' = (s', Some (ReplyBoom 404 ''Not Found'' None))
             \<and> deleteModelsHandler request s' = (s', Some (ReplyBoom 404 ''Not Found'' None))"
    by blast
qed

theorem not_found_when_absent_and_after_delete_witness:
  "params_name (req ''dup'' [] None None) = ''dup''
   \<and> name (data docB) \<noteq> ''dup''
   \<and> getModelHandler (req ''dup'' [] None None) [docB] = ([docB], Some (ReplyBoom 404 ''Not Found'' None))
   \<and> deleteModelsHandler (req ''dup'' [] None None) [docB] = ([docB], Some (ReplyBoom 404 ''Not Found'' None))
   \<and> wf_store [docA, docB]
   \<and> length (filter (\<lambda>row. name (data row) = ''dup'') (allDocs [docA, docB])) = 1
   \<and> deleteModelsHandler (req ''dup'' [] None None) [docA, docB] = ([docB], Some (ReplyEmpty 204))"
proof -
  have p: "params_name (req ''dup'' [] None None) = ''dup''" by (simp add: req_def)
  have a: "\<forall>d \<in> set [docB]. name (data d) \<noteq> ''dup''" by (simp add: docB_def)
  have w: "wf_store [docA, docB]" by (simp add: wf_store_def docA_def docB_def)
  have l: "length (filter (\<lambda>row. name (data row) = ''dup'') (allDocs [docA, docB])) = 1"
    by (simp add: allDocs_def docA_def docB_def)
  have d: "deleteModelsHandler (req ''dup'' [] None None) [docA, docB] = ([docB], Some (ReplyEmpty 204))"
    by (simp add: deleteModelsHandler_def getModel_Cons remove_def req_def docA_def docB_def)
  from not_found_when_absent_and_after_delete [OF p, of "[docB]"] a
    not_found_when_absent_and_after_delete [OF p, of "[docA, docB]"] w l d p
  show ?thesis by simp
qed

text \<open>
  With two live documents of one name (the collection \<open>[docA, docC]\<close> that a rename
  produces), a successful delete removes the first only: the get that follows replies 200
  and the second delete replies 204.
\<close>

theorem delete_leaves_duplicate_counterexample:
  "deleteModelsHandler (req ''dup'' [] None None) [docA, docC] = ([docC], Some (ReplyEmpty 204))
   \<and> getModelHandler (req ''dup'' [] None None) [docC] =
       ([docC], Some (Reply 200 [(''entities'', JEntities None), (''name'', JString ''dup''),
          (''_rev'', JRev (2, ''h3'')), (''url'', JString ''http://host/models/dup''),
          (''changelog_url'', JString ''http://host/models/dup/changelog'')]))
   \<and> deleteModelsHandler (req ''dup'' [] None None) [docC] = ([], Some (ReplyEmpty 204))"
  by (simp add: deleteModelsHandler_def getModelHandler_def getModel_Cons remove_def
        req_def docA_def docC_def)

section \<open>Successful updates\<close>

lemma putModelHandler_fresh:
  assumes wf: "wf_store s" and g: "getModel (params_name request) s = Inr d"
    and r: "p_rev (payload request) = Some (doc_rev d)"
  shows "\<exists>m. getModel (p_name (payload request))
               (map (\<lambda>x. if doc_id x = doc_id d then updated env request d else x) s) = Inr m
     \<and> putModelHandler env request s =
         (map (\<lambda>x. if doc_id x = doc_id d then updated env request d else x) s,
          Some (Reply 200
            [(''name'', JString (name (data m))),
             (''_rev'', JRev (doc_rev m)),
             (''entities'', JEntities (entities (data m))),
             (''url'', JString (buildUrl request (''/models/'' @ name (data m)))),
             (''changelog_url'', JString (buildUrl request
                (''/models/'' @ name (data m) @ ''/changelog'')))]))"
proof -
  let ?v = "\<lparr>entities = p_entities (payload request),
             changelog = \<lparr>message = p_commitMessage (payload request),
                          user = auth_user request, timestamp = now env\<rparr> # changelog (data d),
             name = p_name (payload request)\<rparr>"
  let ?s' = "map (\<lambda>x. if doc_id x = doc_id d then updated env request d else x) s"
  from wf have dist: "distinct (map doc_id s)" by (simp add: wf_store_def)
  from getModel_Inr_set [OF g] have mem: "d \<in> set s" by simp
  have upd: "d\<lparr>doc_rev := (Suc (fst (doc_rev d)), fresh_hash env), data := ?v\<rparr> = updated env request d"
    by (simp add: updated_def entry_of_def)
  have p: "put (fresh_hash env) (d\<lparr>data := ?v\<rparr>) s = Inr ?s'"
    using put_current [OF dist mem, of "fresh_hash env" ?v] by (simp add: upd)
  have "updated env request d \<in> set ?s'" using mem by (auto simp: image_iff)
  from getModel_member [OF this] obtain m where
    m: "getModel (p_name (payload request)) ?s' = Inr m" by (auto simp: updated_def)
  from g r p m have "putModelHandler env request s =
         (?s', Some (Reply 200
            [(''name'', JString (name (data m))),
             (''_rev'', JRev (doc_rev m)),
             (''entities'', JEntities (entities (data m))),
             (''url'', JString (buildUrl request (''/models/'' @ name (data m)))),
             (''changelog_url'', JString (buildUrl request
                (''/models/'' @ name (data m) @ ''/changelog'')))]))"
    by (simp add: putModelHandler_def)
  with m show ?thesis by blast
qed

lemma putModelHandler_Reply_D:
  assumes wf: "wf_store s" and g: "getModel (params_name request) s = Inr d"
    and h: "putModelHandler env request s = (s', Some (Reply c b))"
  shows "p_rev (payload request) = Some (doc_rev d) \<and> c = 200
     \<and> s' = map (\<lambda>x. if doc_id x = doc_id d then updated env request d else x) s"
proof -
  have r: "p_rev (payload request) = Some (doc_rev d)"
  proof (rule ccontr)
    assume "p_rev (payload request) \<noteq> Some (doc_rev d)"
    with g h show False by (auto simp: putModelHandler_def boom_rev_def)
  qed
  from putModelHandler_fresh [OF wf g r, of env] h r show ?thesis by auto
qed

lemma updated_store:
  assumes "distinct (map doc_id (pre @ d # suf))"
  shows "map (\<lambda>x. if doc_id x = doc_id d then d' else x) (pre @ d # suf) = pre @ d' # suf"
proof -
  from assms have "doc_id d \<notin> doc_id ` (set pre \<union> set suf)" by auto
  then have "\<forall>x \<in> set pre \<union> set suf. doc_id x \<noteq> doc_id d" by (metis imageI)
  then have "map (\<lambda>x. if doc_id x = doc_id d then d' else x) pre = pre"
    and "map (\<lambda>x. if doc_id x = doc_id d then d' else x) suf = suf"
    by (simp_all add: map_idI)
  then show ?thesis by simp
qed

text \<open>
  C3, amended. Let the update request resolve to the stored document \<open>d\<close> (the first
  of its name) and supply the revision of \<open>d\<close>. Then the handler replies 200 and the
  collection holds, in the place of \<open>d\<close> and under its identifier, the document with
  the supplied entities and name and a revision that differs from the one supplied. The
  reply is the view of the document \<open>m\<close> found again under the supplied name; if no
  document that precedes \<open>d\<close> in the iteration order carries the supplied name, \<open>m\<close> is
  that stored document.
\<close>

theorem putModelHandler_current_revision:
  assumes wf: "wf_store (pre @ d # suf)"
    and n: "name (data d) = params_name request"
    and first: "\<forall>x \<in> set pre. name (data x) \<noteq> params_name request"
    and r: "p_rev (payload request) = Some (doc_rev d)"
  shows "\<exists>m. putModelHandler env request (pre @ d # suf) =
           (pre @ updated env request d # suf,
            Some (Reply 200
              [(''name'', JString (name (data m))),
               (''_rev'', JRev (doc_rev m)),
               (''entities'', JEntities (entities (data m))),
               (''url'', JString (buildUrl request (''/models/'' @ name (data m)))),
               (''changelog_url'', JString (buildUrl request
                  (''/models/'' @ name (data m) @ ''/changelog'')))]))
     \<and> getModel (p_name (payload request)) (pre @ updated env request d # suf) = Inr m
     \<and> doc_id (updated env request d) = doc_id d
     \<and> entities (data (updated env request d)) = p_entities (payload request)
     \<and> name (data (updated env request d)) = p_name (payload request)
     \<and> doc_rev (updated env request d) \<noteq> doc_rev d
     \<and> ((\<forall>x \<in> set pre. name (data x) \<noteq> p_name (payload request))
            \<longrightarrow> m = updated env request d)"
proof -
  let ?s = "pre @ d # suf" and ?d' = "updated env request d"
  let ?s' = "pre @ ?d' # suf"
  from n first have g: "getModel (params_name request) ?s = Inr d"
    by (simp add: getModel_first)
  from wf have "distinct (map doc_id ?s)" by (simp add: wf_store_def)
  then have s': "map (\<lambda>x. if doc_id x = doc_id d then ?d' else x) ?s = ?s'"
    by (rule updated_store)
  have nd: "name (data ?d') = p_name (payload request)"
    and ed: "entities (data ?d') = p_entities (payload request)"
    and idd: "doc_id ?d' = doc_id d"
    by (simp_all add: updated_def)
  have rv: "doc_rev ?d' \<noteq> doc_rev d"
    by (cases "doc_rev d") (simp add: updated_def)
  from putModelHandler_fresh [OF wf g r, of env] obtain m where
    gm: "getModel (p_name (payload request)) ?s' = Inr m"
    and h: "putModelHandler env request ?s =
         (?s', Some (Reply 200
            [(''name'', JString (name (data m))),
             (''_rev'', JRev (doc_rev m)),
             (''entities'', JEntities (entities (data m))),
             (''url'', JString (buildUrl request (''/models/'' @ name (data m)))),
             (''changelog_url'', JString (buildUrl request
                (''/models/'' @ name (data m) @ ''/changelog'')))]))"
    unfolding s' by blast
  have "m = ?d'" if free: "\<forall>x \<in> set pre. name (data x) \<noteq> p_name (payload request)"
  proof -
    from nd free have "getModel (p_name (payload request)) ?s' = Inr ?d'"
      by (simp add: getModel_first)
    with gm show ?thesis by simp
  qed
  with gm h nd ed idd rv show ?thesis by blast
qed

theorem putModelHandler_current_revision_witness:
  "wf_store ([docA] @ docB # [])
   \<and> name (data docB) = params_name (req ''other'' ''renamed'' None (Some (1, ''h2'')))
   \<and> name (data docA) \<noteq> ''other'' \<and> name (data docA) \<noteq> ''renamed''
   \<and> p_rev (payload (req ''other'' ''renamed'' None (Some (1, ''h2'')))) = Some (doc_rev docB)
   \<and> updated env3 (req ''other'' ''renamed'' None (Some (1, ''h2''))) docB =
       docC\<lparr>data := (data docC)\<lparr>name := ''renamed''\<rparr>\<rparr>
   \<and> putModelHandler env3 (req ''other'' ''renamed'' None (Some (1, ''h2''))) [docA, docB] =
       ([docA, docC\<lparr>data := (data docC)\<lparr>name := ''renamed''\<rparr>\<rparr>],
        Some (Reply 200 [(''name'', JString ''renamed''), (''_rev'', JRev (2, ''h3'')),
          (''entities'', JEntities None), (''url'', JString ''http://host/models/renamed''),
          (''changelog_url'', JString ''http://host/models/renamed/changelog'')]))"
proof -
  let ?r = "req ''other'' ''renamed'' None (Some (1, ''h2''))"
  let ?u = "docC\<lparr>data := (data docC)\<lparr>name := ''renamed''\<rparr>\<rparr>"
  have 1: "wf_store ([docA] @ docB # [])" by (simp add: wf_store_def docA_def docB_def)
  have 2: "name (data docB) = params_name ?r" by (simp add: docB_def req_def)
  have 3: "\<forall>x \<in> set [docA]. name (data x) \<noteq> params_name ?r" by (simp add: docA_def req_def)
  have 4: "\<forall>x \<in> set [docA]. name (data x) \<noteq> p_name (payload ?r)" by (simp add: docA_def req_def)
  have 5: "p_rev (payload ?r) = Some (doc_rev docB)" by (simp add: docB_def req_def)
  have u: "updated env3 ?r docB = ?u"
    by (simp add: updated_def entry_of_def req_def env3_def docB_def docC_def)
  from putModelHandler_current_revision [OF 1 2 3 5, of env3] 4 obtain m where
    h: "putModelHandler env3 ?r ([docA] @ docB # []) =
           ([docA] @ updated env3 ?r docB # [],
            Some (Reply 200
              [(''name'', JString (name (data m))),
               (''_rev'', JRev (doc_rev m)),
               (''entities'', JEntities (entities (data m))),
               (''url'', JString (buildUrl ?r (''/models/'' @ name (data m)))),
               (''changelog_url'', JString (buildUrl ?r
                  (''/models/'' @ name (data m) @ ''/changelog'')))]))"
    and m: "m = updated env3 ?r docB"
    by blast
  have v: "name (data ?u) = ''renamed''" "doc_rev ?u = (2, ''h3'')" "entities (data ?u) = None"
    "buildUrl ?r (''/models/'' @ ''renamed'') = ''http://host/models/renamed''"
    "buildUrl ?r (''/models/'' @ ''renamed'' @ ''/changelog'') = ''http://host/models/renamed/changelog''"
    by (simp_all add: docC_def req_def)
  from h have 6: "putModelHandler env3 ?r [docA, docB] =
       ([docA, ?u],
        Some (Reply 200 [(''name'', JString ''renamed''), (''_rev'', JRev (2, ''h3'')),
          (''entities'', JEntities None), (''url'', JString ''http://host/models/renamed''),
          (''changelog_url'', JString ''http://host/models/renamed/changelog'')]))"
    unfolding m u v by simp
  have 7: "name (data docA) \<noteq> ''other'' \<and> name (data docA) \<noteq> ''renamed''"
    by (simp add: docA_def)
  from 1 2 5 u 6 7 show ?thesis by (intro conjI) simp_all
qed

text \<open>
  When an earlier document already carries the supplied name, the update is stored but
  the reply is the view of that earlier document: here the update of \<open>docB\<close> to the name
  of \<open>docA\<close> stores \<open>docC\<close> and answers with the entities and the revision of \<open>docA\<close>.
\<close>

theorem putModelHandler_rename_collision_counterexample:
  "getModel ''other'' [docA, docB] = Inr docB
   \<and> p_rev (payload (req ''other'' ''dup'' None (Some (1, ''h2'')))) = Some (doc_rev docB)
   \<and> putModelHandler env3 (req ''other'' ''dup'' None (Some (1, ''h2''))) [docA, docB] =
       ([docA, docC],
        Some (Reply 200 [(''name'', JString ''dup''), (''_rev'', JRev (1, ''h1'')),
          (''entities'', JEntities (Some ''e1'')), (''url'', JString ''http://host/models/dup''),
          (''changelog_url'', JString ''http://host/models/dup/changelog'')]))
   \<and> JEntities (Some ''e1'') \<noteq> JEntities (p_entities (payload (req ''other'' ''dup'' None (Some (1, ''h2'')))))
   \<and> doc_rev docC \<noteq> (1, ''h1'')"
  by (simp add: putModelHandler_def getModel_Cons put_def req_def env3_def
        docA_def docB_def docC_def)

text \<open>
  C9. After an update that is answered with status 200, the collection lists the same
  identifiers as before, and the document stored under the identifier of the document
  the request resolved to is the updated one, which carries the supplied name.
\<close>

theorem putModelHandler_keeps_id:
  assumes wf: "wf_store s" and g: "getModel (params_name request) s = Inr d"
    and h: "putModelHandler env request s = (s', Some (Reply 200 b))"
  shows "map doc_id s' = map doc_id s
     \<and> find (\<lambda>x. doc_id x = doc_id d) s' = Some (updated env request d)
     \<and> doc_id (updated env request d) = doc_id d
     \<and> name (data (updated env request d)) = p_name (payload request)"
proof -
  let ?d' = "updated env request d"
  from putModelHandler_Reply_D [OF wf g h]
  have s': "s' = map (\<lambda>x. if doc_id x = doc_id d then ?d' else x) s" by simp
  have id: "doc_id ?d' = doc_id d" by (simp add: updated_def)
  with s' have ids: "map doc_id s' = map doc_id s" by (auto simp: comp_def)
  from wf have "distinct (map doc_id s)" by (simp add: wf_store_def)
  with ids have dist: "distinct (map doc_id s')" by simp
  from getModel_Inr_set [OF g] have "d \<in> set s" by simp
  with s' have "?d' \<in> set s'" by (auto simp: image_iff)
  from find_distinct [OF dist this] id have "find (\<lambda>x. doc_id x = doc_id d) s' = Some ?d'"
    by simp
  with ids id show ?thesis by (simp add: updated_def)
qed

theorem putModelHandler_keeps_id_witness:
  "wf_store [docA, docB]
   \<and> getModel (params_name (req ''other'' ''dup'' None (Some (1, ''h2'')))) [docA, docB] = Inr docB
   \<and> putModelHandler env3 (req ''other'' ''dup'' None (Some (1, ''h2''))) [docA, docB] =
       ([docA, docC],
        Some (Reply 200 [(''name'', JString ''dup''), (''_rev'', JRev (1, ''h1'')),
          (''entities'', JEntities (Some ''e1'')), (''url'', JString ''http://host/models/dup''),
          (''changelog_url'', JString ''http://host/models/dup/changelog'')]))
   \<and> map doc_id [docA, docC] = map doc_id [docA, docB]
   \<and> find (\<lambda>x. doc_id x = doc_id docB) [docA, docC] = Some docC
   \<and> doc_id docC = doc_id docB \<and> name (data docC) = ''dup'' \<and> name (data docB) = ''other''"
proof -
  let ?r = "req ''other'' ''dup'' None (Some (1, ''h2''))"
  have 1: "wf_store [docA, docB]" by (simp add: wf_store_def docA_def docB_def)
  have 2: "getModel (params_name ?r) [docA, docB] = Inr docB"
    by (simp add: getModel_Cons req_def docA_def docB_def)
  have 3: "putModelHandler env3 ?r [docA, docB] =
       ([docA, docC],
        Some (Reply 200 [(''name'', JString ''dup''), (''_rev'', JRev (1, ''h1'')),
          (''entities'', JEntities (Some ''e1'')), (''url'', JString ''http://host/models/dup''),
          (''changelog_url'', JString ''http://host/models/dup/changelog'')]))"
    by (simp add: putModelHandler_def getModel_Cons put_def req_def env3_def
        docA_def docB_def docC_def)
  have u: "updated env3 ?r docB = docC"
    by (simp add: updated_def entry_of_def req_def env3_def docB_def docC_def)
  note k = putModelHandler_keeps_id [OF 1 2 3, unfolded u]
  have e: "name (data docB) = ''other''" by (simp add: docB_def)
  have f: "p_name (payload ?r) = ''dup''" by (simp add: req_def)
  from 1 2 3 k e f show ?thesis by simp
qed

section \<open>The shape of the replies\<close>






section \<open>The changelog\<close>






section \<open>Cloning\<close>

lemma findByName_filter:
  "filter (\<lambda>row. tw_name (data row) = n) s' = filter (\<lambda>row. tw_name (data row) = n) s
     \<Longrightarrow> findByName n s' = findByName n s"
  by (simp add: findByName_def allDocs_def)

lemma findByName_Inl_D:
  "findByName n s = Inl e \<Longrightarrow> \<forall>d \<in> set s. tw_name (data d) \<noteq> n"
  by (auto simp: findByName_def allDocs_def filter_empty_conv split: list.splits)

lemma findByName_Inr_set:
  "findByName n s = Inr d \<Longrightarrow> d \<in> set s \<and> tw_name (data d) = n"
proof -
  assume "findByName n s = Inr d"
  then obtain r where "filter (\<lambda>row. tw_name (data row) = n) s = d # r"
    by (auto simp: findByName_def allDocs_def split: list.splits)
  then have "d \<in> set (filter (\<lambda>row. tw_name (data row) = n) s)" by simp
  then show ?thesis by simp
qed

lemma filter_map_unchanged:
  "\<forall>x \<in> set s. (P (f x) \<longleftrightarrow> P x) \<and> (P x \<longrightarrow> f x = x) \<Longrightarrow> filter P (map f s) = filter P s"
  by (induction s) auto

lemma create_Inr_D:
  assumes "create env p commitMessage actor s = Inr (s1, c)"
  shows "(\<forall>x \<in> set s. tw_name (data x) \<noteq> tw_name p)
     \<and> fresh_id env \<notin> set (map doc_id s)
     \<and> set s1 = insert c (set s)
     \<and> c = \<lparr>doc_id = fresh_id env, doc_rev = (1, fresh_hash env),
             data = p\<lparr>tw_changelog := [\<lparr>message = commitMessage, user = actor,
                                          timestamp = now env\<rparr>]\<rparr>\<rparr>
     \<and> findByName (tw_name p) s1 = Inr c
     \<and> (\<forall>n. n \<noteq> tw_name p \<longrightarrow> findByName n s1 = findByName n s)"
proof -
  let ?v = "appendEntry env (p\<lparr>tw_changelog := []\<rparr>) commitMessage actor"
  let ?new = "\<lparr>doc_id = fresh_id env, doc_rev = (1, fresh_hash env), data = ?v\<rparr>"
  from assms obtain e where e: "findByName (tw_name p) s = Inl e"
    by (cases "findByName (tw_name p) s") (auto simp: create_def)
  from findByName_Inl_D [OF e] have absent: "\<forall>x \<in> set s. tw_name (data x) \<noteq> tw_name p" .
  from assms e obtain s' where p: "post (fresh_id env) (fresh_hash env) ?v s = Inr s'"
    by (cases "post (fresh_id env) (fresh_hash env) ?v s") (auto simp: create_def)
  from assms e p obtain d where d: "findByName (tw_name p) s' = Inr d"
    by (cases "findByName (tw_name p) s'") (auto simp: create_def)
  from assms e p d have eq: "s1 = s'" "c = d" by (auto simp: create_def)
  from p have fresh: "fresh_id env \<notin> set (map doc_id s)"
    and ins: "s' = insort_key doc_id ?new s"
    by (auto simp: post_def split: if_splits)
  from set_post [OF p] have set': "set s' = insert ?new (set s)" .
  from findByName_Inr_set [OF d] have "d \<in> set s'" "tw_name (data d) = tw_name p" by simp_all
  with set' absent have dnew: "d = ?new" by auto
  have others: "findByName n s' = findByName n s" if "n \<noteq> tw_name p" for n
  proof (rule findByName_filter)
    from that have "\<not> tw_name (data ?new) = n" by (simp add: appendEntry_def)
    then show "filter (\<lambda>row. tw_name (data row) = n) s' = filter (\<lambda>row. tw_name (data row) = n) s"
      unfolding ins by (rule filter_insort_triv)
  qed
  from absent fresh set' d dnew others eq show ?thesis
    by (simp add: appendEntry_def)
qed

text \<open>
  C7. When a clone succeeds, the source exists and the new twiglet has its nodes, links
  and model, the supplied name and description, and a changelog of the one new entry;
  the clone is found under the new name and the source is still found under its own.
  Any later guarded update of the source, whatever it does to the source's data short of
  renaming it to the clone's name, leaves the document found under the clone's name as
  it was.
\<close>

theorem clone_copies_graph_and_is_isolated:
  assumes clone: "cloneFrom env sourceName newName newDescription commitMessage actor s = Inr (s1, c)"
  shows "\<exists>a. findByName sourceName s = Inr a
     \<and> nodes (data c) = nodes (data a) \<and> links (data c) = links (data a)
     \<and> model (data c) = model (data a)
     \<and> tw_name (data c) = newName \<and> description (data c) = newDescription
     \<and> tw_changelog (data c) = [\<lparr>message = commitMessage, user = actor, timestamp = now env\<rparr>]
     \<and> findByName newName s1 = Inr c \<and> findByName sourceName s1 = Inr a
     \<and> (\<forall>env' r mutateFn s2 a'.
           guardedUpdate env' sourceName r mutateFn s1 = Inr (s2, a')
           \<and> tw_name (mutateFn (data a)) \<noteq> newName
           \<longrightarrow> findByName newName s2 = Inr c)"
proof -
  from clone obtain a where a: "findByName sourceName s = Inr a"
    by (cases "findByName sourceName s") (auto simp: cloneFrom_def)
  let ?p = "\<lparr>nodes = nodes (data a), links = links (data a), model = model (data a),
             tw_name = newName, description = newDescription, tw_changelog = []\<rparr>"
  from clone a have cr: "create env ?p commitMessage actor s = Inr (s1, c)"
    by (simp add: cloneFrom_def)
  from create_Inr_D [OF cr]
  have absent: "\<forall>x \<in> set s. tw_name (data x) \<noteq> newName"
    and fresh: "fresh_id env \<notin> set (map doc_id s)"
    and set1: "set s1 = insert c (set s)"
    and c: "c = \<lparr>doc_id = fresh_id env, doc_rev = (1, fresh_hash env),
                 data = ?p\<lparr>tw_changelog := [\<lparr>message = commitMessage, user = actor,
                                              timestamp = now env\<rparr>]\<rparr>\<rparr>"
    and fc: "findByName newName s1 = Inr c"
    and others: "\<forall>n. n \<noteq> newName \<longrightarrow> findByName n s1 = findByName n s"
    by simp_all
  from findByName_Inr_set [OF a] have amem: "a \<in> set s" and an: "tw_name (data a) = sourceName"
    by simp_all
  from amem absent an have ne: "sourceName \<noteq> newName" by auto
  with others a have fa: "findByName sourceName s1 = Inr a" by simp
  have iso: "findByName newName s2 = Inr c"
    if u: "guardedUpdate env' sourceName r mutateFn s1 = Inr (s2, a')"
      and nm: "tw_name (mutateFn (data a)) \<noteq> newName" for env' r mutateFn s2 a'
  proof -
    let ?w = "a\<lparr>data := mutateFn (data a)\<rparr>"
    let ?f = "\<lambda>x. if doc_id x = doc_id ?w then ?w\<lparr>doc_rev := (Suc (fst (doc_rev ?w)), fresh_hash env')\<rparr> else x"
    from u fa obtain s' where p: "put (fresh_hash env') ?w s1 = Inr s'"
      by (cases "put (fresh_hash env') ?w s1") (auto simp: guardedUpdate_def split: if_splits)
    from u fa p have s2: "s2 = s'"
      by (auto simp: guardedUpdate_def split: if_splits sum.splits)
    from p have s': "s' = map ?f s1"
      by (auto simp: put_def split: option.splits if_splits)
    from amem fresh have idc: "doc_id c \<noteq> doc_id a" using c by auto
    have "\<forall>x \<in> set s1. (tw_name (data (?f x)) = newName \<longleftrightarrow> tw_name (data x) = newName)
             \<and> (tw_name (data x) = newName \<longrightarrow> ?f x = x)"
    proof
      fix x assume "x \<in> set s1"
      with set1 have "x = c \<or> x \<in> set s" by auto
      then show "(tw_name (data (?f x)) = newName \<longleftrightarrow> tw_name (data x) = newName)
             \<and> (tw_name (data x) = newName \<longrightarrow> ?f x = x)"
      proof
        assume "x = c"
        with idc show ?thesis by simp
      next
        assume "x \<in> set s"
        with absent have "tw_name (data x) \<noteq> newName" by simp
        with nm show ?thesis by simp
      qed
    qed
    then have "filter (\<lambda>row. tw_name (data row) = newName) (map ?f s1)
                 = filter (\<lambda>row. tw_name (data row) = newName) s1"
      by (rule filter_map_unchanged [where P = "\<lambda>row. tw_name (data row) = newName"])
    then have "findByName newName (map ?f s1) = findByName newName s1"
      by (rule findByName_filter)
    with fc s2 s' show ?thesis by simp
  qed
  from a c fc fa iso show ?thesis by (intro exI [of _ a]) auto
qed

theorem clone_copies_graph_and_is_isolated_witness:
  "cloneFrom env2 ''base'' ''clone'' ''This was cloned'' ''cloned'' ''bob'' [twA] = Inr ([twA, twB], twB)
   \<and> findByName ''base'' [twA] = Inr twA
   \<and> nodes (data twB) = nodes (data twA) \<and> links (data twB) = links (data twA)
   \<and> model (data twB) = model (data twA)
   \<and> tw_name (data twB) = ''clone'' \<and> description (data twB) = ''This was cloned''
   \<and> guardedUpdate env3 ''base'' (2, ''h1'') (\<lambda>d. d\<lparr>nodes := [''changed''], links := []\<rparr>) [twA, twB]
        = Inr ([twA2, twB], twA2)
   \<and> findByName ''clone'' [twA2, twB] = Inr twB
   \<and> nodes (data twB) = [''node''] \<and> links (data twB) = [''link'']"
proof -
  have 1: "cloneFrom env2 ''base'' ''clone'' ''This was cloned'' ''cloned'' ''bob'' [twA]
             = Inr ([twA, twB], twB)"
    by (simp add: cloneFrom_def create_def findByName_def allDocs_def post_def appendEntry_def
          env2_def twA_def twB_def)
  have 2: "guardedUpdate env3 ''base'' (2, ''h1'') (\<lambda>d. d\<lparr>nodes := [''changed''], links := []\<rparr>)
             [twA, twB] = Inr ([twA2, twB], twA2)"
    by (simp add: guardedUpdate_def findByName_def allDocs_def put_def env3_def
          twA_def twB_def twA2_def numeral_3_eq_3)
  have 3: "findByName ''base'' [twA] = Inr twA"
    by (simp add: findByName_def allDocs_def twA_def)
  from clone_copies_graph_and_is_isolated [OF 1] 3
  have copy: "nodes (data twB) = nodes (data twA) \<and> links (data twB) = links (data twA)
       \<and> model (data twB) = model (data twA)
       \<and> tw_name (data twB) = ''clone'' \<and> description (data twB) = ''This was cloned''"
    and iso: "\<forall>env' r mutateFn s2 a'.
           guardedUpdate env' ''base'' r mutateFn [twA, twB] = Inr (s2, a')
           \<and> tw_name (mutateFn (data twA)) \<noteq> ''clone''
           \<longrightarrow> findByName ''clone'' s2 = Inr twB"
    by auto
  have "tw_name ((\<lambda>d. d\<lparr>nodes := [''changed''], links := []\<rparr>) (data twA)) \<noteq> ''clone''"
    by (simp add: twA_def)
  with iso 2 have 4: "findByName ''clone'' [twA2, twB] = Inr twB" by blast
  have 5: "nodes (data twB) = [''node''] \<and> links (data twB) = [''link'']"
    by (simp add: twB_def)
  from 1 2 3 4 5 copy show ?thesis by simp
qed

end
